theory Spec2Isabelle
  imports Main
begin

section \<open>Python strings\<close>

text \<open>
  A Python \<^verbatim>\<open>str\<close> is a sequence of Unicode code points, so a string is a list of
  code points here. The fixed messages of \<^verbatim>\<open>bot.py\<close> contain characters outside ASCII
  (emoji, a dash, a typographic apostrophe); they are written by their code points.
\<close>

type_synonym ustr = "nat list"

definition ascii :: "string \<Rightarrow> ustr" where
  "ascii s = map of_char s"

text \<open>
  The characters that \<^verbatim>\<open>str.strip()\<close>, \<^verbatim>\<open>str.split()\<close> and \<^verbatim>\<open>str.isspace()\<close>
  treat as whitespace.
\<close>

definition isspace :: "nat \<Rightarrow> bool" where
  "isspace c \<longleftrightarrow>
     (0x9 \<le> c \<and> c \<le> 0xD) \<or> (0x1C \<le> c \<and> c \<le> 0x20) \<or> c = 0x85 \<or> c = 0xA0 \<or>
     c = 0x1680 \<or> (0x2000 \<le> c \<and> c \<le> 0x200A) \<or> c = 0x2028 \<or> c = 0x2029 \<or>
     c = 0x202F \<or> c = 0x205F \<or> c = 0x3000"

text \<open>
  The decimal digits (general category Nd) come in runs of ten, each starting at a digit
  zero. \<open>decimal_zeros\<close> lists the zeros (Unicode 14, as in CPython 3.11).
\<close>

definition decimal_zeros :: "nat list" where
  "decimal_zeros =
    [0x30, 0x660, 0x6F0, 0x7C0, 0x966, 0x9E6, 0xA66, 0xAE6, 0xB66, 0xBE6, 0xC66, 0xCE6,
     0xD66, 0xDE6, 0xE50, 0xED0, 0xF20, 0x1040, 0x1090, 0x17E0, 0x1810, 0x1946, 0x19D0,
     0x1A80, 0x1A90, 0x1B50, 0x1BB0, 0x1C40, 0x1C50, 0xA620, 0xA8D0, 0xA900, 0xA9D0,
     0xA9F0, 0xAA50, 0xABF0, 0xFF10, 0x104A0, 0x10D30, 0x11066, 0x110F0, 0x11136,
     0x111D0, 0x112F0, 0x11450, 0x114D0, 0x11650, 0x116C0, 0x11730, 0x118E0, 0x11950,
     0x11C50, 0x11D50, 0x11DA0, 0x16A60, 0x16AC0, 0x16B50, 0x1D7CE, 0x1D7D8, 0x1D7E2,
     0x1D7EC, 0x1D7F6, 0x1E140, 0x1E2F0, 0x1E950, 0x1FBF0]"

fun decimal_in :: "nat list \<Rightarrow> nat \<Rightarrow> nat option" where
  "decimal_in [] c = None"
| "decimal_in (z # zs) c = (if z \<le> c \<and> c \<le> z + 9 then Some (c - z) else decimal_in zs c)"

definition decimal_value :: "nat \<Rightarrow> nat option" where
  "decimal_value c = decimal_in decimal_zeros c"

text \<open>
  The characters of numeric type Digit that are not decimal digits: superscripts,
  subscripts, circled and parenthesised digits and the like. \<^verbatim>\<open>str.isdigit()\<close> accepts
  them, \<^verbatim>\<open>int()\<close> does not.
\<close>

definition other_digit_ranges :: "(nat \<times> nat) list" where
  "other_digit_ranges =
    [(0xB2, 0xB3), (0xB9, 0xB9), (0x1369, 0x1371), (0x19DA, 0x19DA), (0x2070, 0x2070),
     (0x2074, 0x2079), (0x2080, 0x2089), (0x2460, 0x2468), (0x2474, 0x247C),
     (0x2488, 0x2490), (0x24EA, 0x24EA), (0x24F5, 0x24FD), (0x24FF, 0x24FF),
     (0x2776, 0x277E), (0x2780, 0x2788), (0x278A, 0x2792), (0x10A40, 0x10A43),
     (0x10E60, 0x10E68), (0x11052, 0x1105A), (0x1F100, 0x1F10A)]"

definition isdigit_char :: "nat \<Rightarrow> bool" where
  "isdigit_char c \<longleftrightarrow>
     decimal_value c \<noteq> None \<or> list_ex (\<lambda>(lo, hi). lo \<le> c \<and> c \<le> hi) other_digit_ranges"

text \<open>\<^verbatim>\<open>s.isdigit()\<close>: at least one character, and every character a digit.\<close>

definition isdigit :: "ustr \<Rightarrow> bool" where
  "isdigit s \<longleftrightarrow> s \<noteq> [] \<and> list_all isdigit_char s"

text \<open>\<^verbatim>\<open>s.strip()\<close>: whitespace removed at both ends.\<close>

definition lstrip :: "ustr \<Rightarrow> ustr" where
  "lstrip s = dropWhile isspace s"

definition rstrip :: "ustr \<Rightarrow> ustr" where
  "rstrip s = rev (dropWhile isspace (rev s))"

definition strip :: "ustr \<Rightarrow> ustr" where
  "strip s = lstrip (rstrip s)"

text \<open>\<^verbatim>\<open>sep.join(xs)\<close>.\<close>

fun join :: "ustr \<Rightarrow> ustr list \<Rightarrow> ustr" where
  "join sep [] = []"
| "join sep [x] = x"
| "join sep (x # y # ys) = x @ sep @ join sep (y # ys)"

text \<open>
  \<^verbatim>\<open>s.split()\<close> with no argument: the maximal runs of characters that are not
  whitespace. \<open>split_from cur s\<close> carries the token read so far. The framework fills
  \<^verbatim>\<open>context.args\<close> with the tokens of the message text after the command token.
\<close>

fun split_from :: "ustr \<Rightarrow> ustr \<Rightarrow> ustr list" where
  "split_from cur [] = (if cur = [] then [] else [cur])"
| "split_from cur (c # cs) =
     (if isspace c then (if cur = [] then split_from [] cs else cur # split_from [] cs)
      else split_from (cur @ [c]) cs)"

definition split :: "ustr \<Rightarrow> ustr list" where
  "split s = split_from [] s"

subsection \<open>Conversions between strings and integers\<close>

datatype exn = ValueError | IndexError | AttributeError

text \<open>
  \<^verbatim>\<open>int(s)\<close> in base ten, for a string with no sign, underscore or surrounding
  whitespace (both calls of the program come after \<^verbatim>\<open>s.isdigit()\<close>, which excludes
  them): every character must be a decimal digit, there must be at least one, and CPython
  refuses more than 4300 digits. Anything else raises \<^verbatim>\<open>ValueError\<close>.
\<close>

fun decimals :: "ustr \<Rightarrow> nat list option" where
  "decimals [] = Some []"
| "decimals (c # cs) =
     (case decimal_value c of
        None \<Rightarrow> None
      | Some d \<Rightarrow> (case decimals cs of None \<Rightarrow> None | Some ds \<Rightarrow> Some (d # ds)))"

definition max_str_digits :: nat where
  "max_str_digits = 4300"

definition digits_value :: "nat list \<Rightarrow> int" where
  "digits_value ds = foldl (\<lambda>a d. 10 * a + int d) 0 ds"

definition py_int :: "ustr \<Rightarrow> exn + int" where
  "py_int s =
     (case decimals s of
        None \<Rightarrow> Inl ValueError
      | Some ds \<Rightarrow>
          if ds = [] \<or> max_str_digits < length ds then Inl ValueError
          else Inr (digits_value ds))"

text \<open>\<^verbatim>\<open>str(n)\<close> for a number that is not negative, as the f-string of \<^verbatim>\<open>/list\<close> prints it.\<close>

fun str_nat :: "nat \<Rightarrow> ustr" where
  "str_nat n = (if n < 10 then [0x30 + n] else str_nat (n div 10) @ [0x30 + n mod 10])"

section \<open>The task store\<close>

text \<open>
  A task is the tuple \<^verbatim>\<open>(task_text, msg_id, added_by)\<close>; \<^verbatim>\<open>tasks_by_chat\<close> is a
  dictionary from the chat id to the list of the chat's tasks.
\<close>

type_synonym task = "ustr \<times> int \<times> ustr"

type_synonym store = "int \<rightharpoonup> task list"

definition text_of :: "task \<Rightarrow> ustr" where
  "text_of t = fst t"


definition adder_of :: "task \<Rightarrow> ustr" where
  "adder_of t = snd (snd t)"

text \<open>
  \<^verbatim>\<open>tasks_by_chat.setdefault(chat_id, [])\<close>: the list of the chat, and the dictionary,
  which gains an empty list for a chat it did not know.
\<close>

definition get_tasks_for :: "store \<Rightarrow> int \<Rightarrow> task list \<times> store" where
  "get_tasks_for st chat =
     (case st chat of None \<Rightarrow> ([], st(chat \<mapsto> [])) | Some ts \<Rightarrow> (ts, st))"

text \<open>What a reader of the store sees for a chat: its list, empty when the chat is unknown.\<close>

definition snapshot :: "store \<Rightarrow> int \<Rightarrow> task list" where
  "snapshot st chat = (case st chat of None \<Rightarrow> [] | Some ts \<Rightarrow> ts)"

text \<open>
  \<^verbatim>\<open>xs.pop(i)\<close>: a negative index counts from the end, an index out of range raises
  \<^verbatim>\<open>IndexError\<close>; otherwise the element and the list without it.
\<close>

definition pop :: "'a list \<Rightarrow> int \<Rightarrow> exn + ('a \<times> 'a list)" where
  "pop xs i =
     (if i < - int (length xs) \<or> int (length xs) \<le> i then Inl IndexError
      else
        let k = nat (if 0 \<le> i then i else i + int (length xs))
        in Inr (xs ! k, take k xs @ drop (Suc k) xs))"

section \<open>The command handlers\<close>

text \<open>
  What a handler reads of the incoming update: the chat, the message and the sender.
  \<^verbatim>\<open>full_name\<close> is an attribute the framework computes; it is taken as given.
  \<^verbatim>\<open>update.message\<close> is \<^verbatim>\<open>None\<close> when the update carries an edited message: the
  handlers are registered with the default filter, so an edited command reaches them too.
\<close>

record user =
  username :: "ustr option"
  full_name :: ustr
  first_name :: ustr

record msg =
  message_id :: int

record update =
  chat_id :: int
  message :: "msg option"
  effective_user :: user

text \<open>What a handler passes to \<^verbatim>\<open>reply_text\<close>.\<close>

record reply =
  sent_text :: ustr
  parse_mode :: "ustr option"
  reply_to_message_id :: "int option"

definition say :: "ustr \<Rightarrow> reply" where
  "say s = \<lparr>sent_text = s, parse_mode = None, reply_to_message_id = None\<rparr>"

text \<open>
  \<^verbatim>\<open>await update.message.reply_text(...)\<close>: the reply goes out through the message of
  the update; when there is none, the attribute lookup on \<^verbatim>\<open>None\<close> raises
  \<^verbatim>\<open>AttributeError\<close>.
\<close>

definition reply_text :: "update \<Rightarrow> reply \<Rightarrow> exn + reply" where
  "reply_text u r = (case message u of None \<Rightarrow> Inl AttributeError | Some m \<Rightarrow> Inr r)"

text \<open>
  A handler takes the update, \<^verbatim>\<open>context.args\<close> and the store; it gives the reply it
  sends, or the exception it raises, and the store as it is left.
\<close>

type_synonym handler = "update \<Rightarrow> ustr list \<Rightarrow> store \<Rightarrow> (exn + reply) \<times> store"

subsection \<open>The fixed messages\<close>

definition welcome_msg :: ustr where
  "welcome_msg =
     [0x1F44B] @ ascii '' Welcome to the Task Bot!'' @ [0xA] @
     ascii ''Each group or chat has its own independent task list.'' @ [0xA, 0xA] @
     ascii ''Use /add <task> to add a task.'' @ [0xA] @
     ascii ''Use /list to view tasks.'' @ [0xA] @
     ascii ''Use /goto <number> to jump (reply) to the original task message.'' @ [0xA] @
     ascii ''Use /done <number> to mark a task as completed and remove it.'' @ [0xA] @
     ascii ''Use /clear to clear all tasks in this chat.'' @ [0xA] @
     ascii ''Use /help to view all commands.''"

definition help_msg :: ustr where
  "help_msg =
     [0x1F4CB] @ ascii '' *Task Bot Commands*'' @ [0xA, 0xA, 0x1F195] @ ascii '' '' @ [0x60] @
     ascii ''/add <task>'' @ [0x60] @ ascii '' '' @ [0x2014] @ ascii '' Add a new task'' @
     [0xA, 0x1F4C4] @ ascii '' '' @ [0x60] @ ascii ''/list'' @ [0x60] @ ascii '' '' @ [0x2014] @
     ascii '' Show all current tasks'' @ [0xA, 0x1F50E] @ ascii '' '' @ [0x60] @
     ascii ''/goto <number>'' @ [0x60] @ ascii '' '' @ [0x2014] @
     ascii '' Reply to the original '' @ [0x60] @ ascii ''/add'' @ [0x60] @
     ascii '' message for that task'' @ [0xA, 0x2705] @ ascii '' '' @ [0x60] @
     ascii ''/done <number>'' @ [0x60] @ ascii '' '' @ [0x2014] @
     ascii '' Mark a task as completed and remove it'' @ [0xA, 0x1F9F9] @ ascii '' '' @ [0x60] @
     ascii ''/clear'' @ [0x60] @ ascii '' '' @ [0x2014] @
     ascii '' Clear all tasks in *this chat*'' @ [0xA, 0x2139, 0xFE0F] @ ascii '' '' @ [0x60] @
     ascii ''/help'' @ [0x60] @ ascii '' '' @ [0x2014] @ ascii '' Show this help message'' @ [0xA]"

definition add_usage_msg :: ustr where
  "add_usage_msg = ascii ''Please enter a task after the command, e.g. /add Buy milk''"

definition no_tasks_yet_msg :: ustr where
  "no_tasks_yet_msg = [0x1F4ED] @ ascii '' No tasks yet.''"

definition goto_usage_msg :: ustr where
  "goto_usage_msg = ascii ''Please enter a task number, e.g. /goto 1''"

definition goto_invalid_msg :: ustr where
  "goto_invalid_msg = [0x274C] @ ascii '' Invalid number. Use /list to check the task index.''"

definition done_no_tasks_msg :: ustr where
  "done_no_tasks_msg = ascii ''There are no tasks to complete. Add one with /add.''"

definition done_usage_msg :: ustr where
  "done_usage_msg = ascii ''Please provide a valid number, e.g. /done 1''"

definition done_invalid_msg :: ustr where
  "done_invalid_msg =
     ascii ''That task number doesn'' @ [0x2019] @ ascii ''t exist. Use /list to check.''"

definition cleared_msg :: ustr where
  "cleared_msg = [0x1F9F9] @ ascii '' All tasks in this chat have been cleared.''"

subsection \<open>start and help\<close>

definition start :: handler where
  "start u args st = (reply_text u (say welcome_msg), st)"

definition help_cmd :: handler where
  "help_cmd u args st =
     (reply_text u ((say help_msg)\<lparr>parse_mode := Some (ascii ''Markdown'')\<rparr>), st)"

subsection \<open>add\<close>

text \<open>
  The label of the sender: the handle with an at sign when there is one, else the full
  name, else the first name, else \<^verbatim>\<open>"Someone"\<close>. An empty string counts as absent, as
  Python's \<^verbatim>\<open>or\<close> and conditional expression do.
\<close>

definition name_or_someone :: "user \<Rightarrow> ustr" where
  "name_or_someone usr =
     (if full_name usr \<noteq> [] then full_name usr
      else if first_name usr \<noteq> [] then first_name usr
      else ascii ''Someone'')"

definition added_by_of :: "user \<Rightarrow> ustr" where
  "added_by_of usr =
     (case username usr of
        None \<Rightarrow> name_or_someone usr
      | Some n \<Rightarrow> if n \<noteq> [] then ascii ''@'' @ n else name_or_someone usr)"

definition added_msg :: "ustr \<Rightarrow> ustr \<Rightarrow> ustr" where
  "added_msg task_text added_by =
     [0x2705] @ ascii '' Task added: '' @ task_text @ ascii '' (by '' @ added_by @ ascii '')''"

definition add :: handler where
  "add u args st =
     (let chat = chat_id u;
          task_text = strip (join (ascii '' '') args)
      in if task_text = [] then (reply_text u (say add_usage_msg), st)
         else
           (case message u of
              None \<Rightarrow> (Inl AttributeError, st)
            | Some m \<Rightarrow>
                let msg_id = message_id m;
                    added_by = added_by_of (effective_user u);
                    (tasks, st1) = get_tasks_for st chat
                in (reply_text u (say (added_msg task_text added_by)),
                    st1(chat \<mapsto> tasks @ [(task_text, msg_id, added_by)]))))"

subsection \<open>list\<close>

definition list_line :: "nat \<times> task \<Rightarrow> ustr" where
  "list_line it =
     (case it of (i, t) \<Rightarrow>
        str_nat (i + 1) @ ascii ''. '' @ text_of t @ ascii '' (by '' @ adder_of t @
        ascii '')'')"

definition list_tasks :: handler where
  "list_tasks u args st =
     (let chat = chat_id u;
          (tasks, st1) = get_tasks_for st chat
      in if tasks = [] then (reply_text u (say no_tasks_yet_msg), st1)
         else
           let lines = map list_line (enumerate 0 tasks)
           in (reply_text u (say ([0x1F4DD] @ ascii '' Current tasks in this chat:'' @ [0xA] @
                                  join [0xA] lines)), st1))"

subsection \<open>goto\<close>

definition pointer_msg :: "ustr \<Rightarrow> ustr" where
  "pointer_msg added_by =
     [0x1F4CE] @ ascii '' Original task (by '' @ added_by @ ascii '') '' @ [0x1F447]"

definition goto_task :: handler where
  "goto_task u args st =
     (let chat = chat_id u;
          (tasks, st1) = get_tasks_for st chat
      in if tasks = [] then (reply_text u (say no_tasks_yet_msg), st1)
         else
           (case args of
              [] \<Rightarrow> (reply_text u (say goto_usage_msg), st1)
            | a # _ \<Rightarrow>
                if \<not> isdigit a then (reply_text u (say goto_usage_msg), st1)
                else
                  (case py_int a of
                     Inl e \<Rightarrow> (Inl e, st1)
                   | Inr n \<Rightarrow>
                       let index = n - 1
                       in if index < 0 \<or> int (length tasks) \<le> index
                          then (reply_text u (say goto_invalid_msg), st1)
                          else
                            (case tasks ! nat index of
                               (task_text, msg_id, added_by) \<Rightarrow>
                                 (reply_text u ((say (pointer_msg added_by))
                                    \<lparr>reply_to_message_id := Some msg_id\<rparr>), st1)))))"

subsection \<open>done\<close>

definition completed_msg :: "ustr \<Rightarrow> ustr \<Rightarrow> ustr" where
  "completed_msg finished_text added_by =
     [0x2705] @ ascii '' Completed and removed: '' @ finished_text @ ascii '' (added by '' @
     added_by @ ascii '')''"

definition done_task :: handler where
  "done_task u args st =
     (let chat = chat_id u;
          (tasks, st1) = get_tasks_for st chat
      in if tasks = [] then (reply_text u (say done_no_tasks_msg), st1)
         else
           (case args of
              [] \<Rightarrow> (reply_text u (say done_usage_msg), st1)
            | a # _ \<Rightarrow>
                if \<not> isdigit a then (reply_text u (say done_usage_msg), st1)
                else
                  (case py_int a of
                     Inl e \<Rightarrow> (Inl e, st1)
                   | Inr n \<Rightarrow>
                       let index = n - 1
                       in if index < 0 \<or> int (length tasks) \<le> index
                          then (reply_text u (say done_invalid_msg), st1)
                          else
                            (case pop tasks index of
                               Inl e \<Rightarrow> (Inl e, st1)
                             | Inr ((finished_text, _, added_by), tasks') \<Rightarrow>
                                 (reply_text u (say (completed_msg finished_text added_by)),
                                  st1(chat \<mapsto> tasks'))))))"

subsection \<open>clear\<close>

definition clear_tasks :: handler where
  "clear_tasks u args st = (reply_text u (say cleared_msg), st(chat_id u \<mapsto> []))"

subsection \<open>Dispatch\<close>

text \<open>The seven registered commands, each with its handler.\<close>

datatype command = CmdStart | CmdHelp | CmdAdd | CmdList | CmdGoto | CmdDone | CmdClear

fun handle :: "command \<Rightarrow> handler" where
  "handle CmdStart = start"
| "handle CmdHelp = help_cmd"
| "handle CmdAdd = add"
| "handle CmdList = list_tasks"
| "handle CmdGoto = goto_task"
| "handle CmdDone = done_task"
| "handle CmdClear = clear_tasks"

text \<open>
  A run of the bot: the commands are handled one after the other on the store the one
  before left. A handler that raises leaves the store as it was when it raised, and the
  framework goes on with the next update.
\<close>

type_synonym invocation = "command \<times> update \<times> ustr list"

fun run :: "store \<Rightarrow> invocation list \<Rightarrow> store" where
  "run st [] = st"
| "run st ((cmd, u, args) # rest) = run (snd (handle cmd u args st)) rest"

subsection \<open>Notions used in the properties\<close>

text \<open>A text that is not empty and neither starts nor ends with whitespace.\<close>

definition trimmed :: "ustr \<Rightarrow> bool" where
  "trimmed s \<longleftrightarrow> s \<noteq> [] \<and> \<not> isspace (hd s) \<and> \<not> isspace (last s)"

text \<open>Every stored task of every chat has such a text.\<close>

definition all_trimmed :: "store \<Rightarrow> bool" where
  "all_trimmed st \<longleftrightarrow> (\<forall>c. \<forall>t\<in>set (snapshot st c). trimmed (text_of t))"

text \<open>The update of a command that arrives as a new message: it carries its message.\<close>

definition command_update :: "int \<Rightarrow> int \<Rightarrow> user \<Rightarrow> update" where
  "command_update chat mid usr =
     \<lparr>chat_id = chat, message = Some \<lparr>message_id = mid\<rparr>, effective_user = usr\<rparr>"

text \<open>
  An \<^verbatim>\<open>/add\<close> command sent as a new message: the id of the message, the sender and the
  arguments; and the tuple that \<^verbatim>\<open>/add\<close> appends for it.
\<close>

type_synonym add_call = "int \<times> user \<times> ustr list"

definition new_task :: "add_call \<Rightarrow> task" where
  "new_task call =
     (case call of (mid, usr, args) \<Rightarrow> (strip (join (ascii '' '') args), mid, added_by_of usr))"

text \<open>A series of such commands in one chat, as invocations.\<close>

definition adds :: "int \<Rightarrow> add_call list \<Rightarrow> invocation list" where
  "adds chat calls =
     map (\<lambda>call. case call of (mid, usr, args) \<Rightarrow> (CmdAdd, command_update chat mid usr, args))
       calls"

subsection \<open>Sample inputs\<close>

text \<open>
  Two senders, a command message from chat 7, an edited command from chat 7 and a store in
  which chat 7 has two tasks.
\<close>

definition bob :: user where
  "bob = \<lparr>username = Some (ascii ''bob''), full_name = ascii ''Bob B'', first_name = ascii ''Bob''\<rparr>"

definition amy :: user where
  "amy = \<lparr>username = Some (ascii ''amy''), full_name = ascii ''Amy A'', first_name = ascii ''Amy''\<rparr>"

definition upd7 :: update where
  "upd7 = \<lparr>chat_id = 7, message = Some \<lparr>message_id = 42\<rparr>, effective_user = bob\<rparr>"

definition edited7 :: update where
  "edited7 = \<lparr>chat_id = 7, message = None, effective_user = bob\<rparr>"

definition milk :: task where
  "milk = (ascii ''Buy milk'', 40, ascii ''@bob'')"

definition eggs :: task where
  "eggs = (ascii ''Buy eggs'', 41, ascii ''@amy'')"

definition store7 :: store where
  "store7 = [7 \<mapsto> [milk, eggs]]"

section \<open>Properties\<close>

subsection \<open>Auxiliary facts\<close>

lemma fst_get_tasks_for: "fst (get_tasks_for st c) = snapshot st c"
  by (simp add: get_tasks_for_def snapshot_def split: option.splits)

lemma snapshot_get_tasks_for: "snapshot (snd (get_tasks_for st c)) c' = snapshot st c'"
  by (simp add: get_tasks_for_def snapshot_def split: option.splits)

lemma get_tasks_for_known: "snapshot st c \<noteq> [] \<Longrightarrow> get_tasks_for st c = (snapshot st c, st)"
  by (simp add: get_tasks_for_def snapshot_def split: option.splits)


lemma snapshot_upd: "snapshot (st(c \<mapsto> ts)) c' = (if c' = c then ts else snapshot st c')"
  by (simp add: snapshot_def)



lemma reply_text_message: "message u = Some m \<Longrightarrow> reply_text u r = Inr r"
  by (simp add: reply_text_def)

lemma reply_text_no_message: "message u = None \<Longrightarrow> reply_text u r = Inl AttributeError"
  by (simp add: reply_text_def)


lemma reply_text_upd7: "reply_text upd7 r = Inr r"
  by (simp add: reply_text_def upd7_def)

lemma reply_text_edited7: "reply_text edited7 r = Inl AttributeError"
  by (simp add: reply_text_def edited7_def)

lemma pop_in_range:
  "0 \<le> i \<Longrightarrow> i < int (length xs) \<Longrightarrow>
   pop xs i = Inr (xs ! nat i, take (nat i) xs @ drop (Suc (nat i)) xs)"
  by (simp add: pop_def Let_def)

lemma done_task_in_range:
  assumes "snapshot st (chat_id u) = tasks"
    and "isdigit a" and "py_int a = Inr p"
    and "1 \<le> p" and "p \<le> int (length tasks)"
  shows "done_task u (a # rest) st =
           (reply_text u (say (completed_msg (text_of (tasks ! nat (p - 1)))
                                             (adder_of (tasks ! nat (p - 1))))),
            st(chat_id u \<mapsto> take (nat (p - 1)) tasks @ drop (nat p) tasks))"
proof -
  from assms have ne: "snapshot st (chat_id u) \<noteq> []" by auto
  obtain tx mid ab where t: "tasks ! nat (p - 1) = (tx, mid, ab)"
    by (cases "tasks ! nat (p - 1)") auto
  have sp: "Suc (nat (p - 1)) = nat p" using assms(4) by simp
  have pp: "pop tasks (p - 1) = Inr ((tx, mid, ab), take (nat (p - 1)) tasks @ drop (nat p) tasks)"
    using assms(4,5) t sp by (simp add: pop_in_range)
  show ?thesis
    using assms ne t pp
    by (simp add: done_task_def get_tasks_for_known adder_of_def text_of_def Let_def)
qed

lemma isdigit_1: "isdigit (ascii ''1'')" "isdigit (ascii ''2'')" "isdigit (ascii ''3'')"
  by (simp_all add: ascii_def isdigit_def isdigit_char_def decimal_value_def decimal_zeros_def)

lemma py_int_1: "py_int (ascii ''1'') = Inr 1" "py_int (ascii ''2'') = Inr 2" "py_int (ascii ''3'') = Inr 3"
  by (simp_all add: ascii_def py_int_def decimal_value_def decimal_zeros_def digits_value_def
      max_str_digits_def)

lemma snapshot_store7: "snapshot store7 (chat_id upd7) = [milk, eggs]"
  by (simp add: snapshot_def store7_def upd7_def)

lemma snapshot_store7_edited: "snapshot store7 (chat_id edited7) = [milk, eggs]"
  by (simp add: snapshot_def store7_def edited7_def)

lemma dropWhile_id: "xs = [] \<or> \<not> P (hd xs) \<Longrightarrow> dropWhile P xs = xs"
  by (cases xs) auto

lemma strip_trimmed: "trimmed s \<Longrightarrow> strip s = s"
  by (simp add: trimmed_def strip_def lstrip_def rstrip_def dropWhile_id hd_rev)

lemma last_dropWhile_ne: "dropWhile P xs \<noteq> [] \<Longrightarrow> last (dropWhile P xs) = last xs"
proof -
  assume ne: "dropWhile P xs \<noteq> []"
  have "last xs = last (takeWhile P xs @ dropWhile P xs)" by simp
  also have "\<dots> = last (dropWhile P xs)" using ne by (rule last_appendR)
  finally show ?thesis by simp
qed

lemma trimmed_strip: "strip s \<noteq> [] \<Longrightarrow> trimmed (strip s)"
proof -
  assume ne: "strip s \<noteq> []"
  let ?zs = "dropWhile isspace (rev s)"
  let ?ys = "rev ?zs"
  have s: "strip s = dropWhile isspace ?ys" by (simp add: strip_def lstrip_def rstrip_def)
  have zne: "?zs \<noteq> []"
  proof
    assume z: "?zs = []"
    have "strip s = dropWhile isspace (rev [])" by (simp only: s z)
    then show False using ne by simp
  qed
  have h: "\<not> isspace (hd (strip s))" using ne s by (simp add: hd_dropWhile)
  have "last (strip s) = last ?ys" using ne s by (simp add: last_dropWhile_ne)
  also have "\<dots> = hd ?zs" using zne by (simp add: last_rev)
  finally have l: "\<not> isspace (last (strip s))" using zne by (simp add: hd_dropWhile)
  show ?thesis using ne h l by (simp add: trimmed_def)
qed

lemma strip_nonempty_iff: "strip s \<noteq> [] \<longleftrightarrow> (\<exists>c\<in>set s. \<not> isspace c)"
proof
  assume "strip s \<noteq> []"
  then obtain c where "c \<in> set (strip s)" "\<not> isspace c"
    using trimmed_strip [of s] by (auto simp: trimmed_def intro: hd_in_set)
  moreover have "set (strip s) \<subseteq> set s"
    by (auto simp: strip_def lstrip_def rstrip_def dest!: set_dropWhileD)
  ultimately show "\<exists>c\<in>set s. \<not> isspace c" by auto
next
  assume ex: "\<exists>c\<in>set s. \<not> isspace c"
  let ?zs = "dropWhile isspace (rev s)"
  have zne: "?zs \<noteq> []" using ex by (auto simp: dropWhile_eq_Nil_conv)
  then have "\<not> isspace (hd ?zs)" by (simp add: hd_dropWhile)
  moreover have "hd ?zs \<in> set (rev ?zs)" using zne by simp
  ultimately have "dropWhile isspace (rev ?zs) \<noteq> []"
    by (auto simp: dropWhile_eq_Nil_conv simp del: set_rev)
  then show "strip s \<noteq> []" by (simp add: strip_def lstrip_def rstrip_def)
qed

lemma join_trimmed:
  "xs \<noteq> [] \<Longrightarrow> \<forall>t\<in>set xs. trimmed t \<Longrightarrow> trimmed (join sep xs)"
proof (induction sep xs rule: join.induct)
  case (1 sep)
  then show ?case by simp
next
  case (2 sep x)
  then show ?case by simp
next
  case (3 sep x y ys)
  then have r: "trimmed (join sep (y # ys))" by simp
  have x: "trimmed x" using 3 by simp
  show ?case using r x by (simp add: trimmed_def)
qed

lemma split_from_tokens:
  "\<forall>c\<in>set cur. \<not> isspace c \<Longrightarrow>
   \<forall>t\<in>set (split_from cur s). t \<noteq> [] \<and> (\<forall>c\<in>set t. \<not> isspace c)"
proof (induction s arbitrary: cur)
  case Nil
  then show ?case by auto
next
  case (Cons a s)
  show ?case
  proof (cases "isspace a")
    case True
    have "\<forall>t\<in>set (split_from [] s). t \<noteq> [] \<and> (\<forall>c\<in>set t. \<not> isspace c)"
      using Cons.IH [of "[]"] by simp
    then show ?thesis using True Cons.prems by auto
  next
    case False
    have "\<forall>c\<in>set (cur @ [a]). \<not> isspace c" using False Cons.prems by auto
    then have "\<forall>t\<in>set (split_from (cur @ [a]) s). t \<noteq> [] \<and> (\<forall>c\<in>set t. \<not> isspace c)"
      by (rule Cons.IH)
    then show ?thesis using False by simp
  qed
qed

lemma split_from_nonempty_iff:
  "split_from cur s \<noteq> [] \<longleftrightarrow> cur \<noteq> [] \<or> (\<exists>c\<in>set s. \<not> isspace c)"
  by (induction s arbitrary: cur) auto

lemma split_tokens_trimmed: "\<forall>t\<in>set (split s). trimmed t"
proof
  fix t assume "t \<in> set (split s)"
  then have "t \<noteq> [] \<and> (\<forall>c\<in>set t. \<not> isspace c)"
    using split_from_tokens [of "[]" s] by (simp add: split_def)
  then show "trimmed t" by (simp add: trimmed_def)
qed

lemma split_nonempty_iff: "split s \<noteq> [] \<longleftrightarrow> strip s \<noteq> []"
  by (simp add: split_def split_from_nonempty_iff strip_nonempty_iff)

lemma strip_join_split:
  "strip s \<noteq> [] \<Longrightarrow> strip (join sep (split s)) = join sep (split s) \<and> join sep (split s) \<noteq> []"
proof -
  assume "strip s \<noteq> []"
  then have "split s \<noteq> []" by (simp add: split_nonempty_iff)
  then have "trimmed (join sep (split s))" using split_tokens_trimmed by (rule join_trimmed)
  then show ?thesis by (simp add: strip_trimmed) (simp add: trimmed_def)
qed

lemma add_accepts:
  "strip (join (ascii '' '') args) \<noteq> [] \<Longrightarrow> message u = Some m \<Longrightarrow>
   add u args st =
     (Inr (say (added_msg (strip (join (ascii '' '') args)) (added_by_of (effective_user u)))),
      st(chat_id u \<mapsto> snapshot st (chat_id u) @
           [(strip (join (ascii '' '') args), message_id m, added_by_of (effective_user u))]))"
  by (simp add: add_def Let_def get_tasks_for_def snapshot_def reply_text_def
      split: option.splits)

lemma add_without_message:
  "message u = None \<Longrightarrow> add u args st = (Inl AttributeError, st)"
  by (simp add: add_def Let_def reply_text_def)

lemma split_a_b: "split (ascii ''a  b'') = [ascii ''a'', ascii ''b'']"
  by (simp add: ascii_def split_def isspace_def)

lemma strip_a_b: "strip (ascii ''a  b'') = ascii ''a  b''"
  by (simp add: ascii_def strip_def lstrip_def rstrip_def isspace_def)

lemma handle_add_command:
  "strip (join (ascii '' '') args) \<noteq> [] \<Longrightarrow>
   snd (handle CmdAdd (command_update c mid usr) args st) =
     st(c \<mapsto> snapshot st c @ [new_task (mid, usr, args)])"
proof -
  assume ne: "strip (join (ascii '' '') args) \<noteq> []"
  have m: "message (command_update c mid usr) = Some \<lparr>message_id = mid\<rparr>"
    by (simp add: command_update_def)
  show ?thesis
    using add_accepts [OF ne m, of st] by (simp add: command_update_def new_task_def)
qed

lemma run_adds_snapshot:
  "\<forall>call\<in>set calls. strip (join (ascii '' '') (snd (snd call))) \<noteq> [] \<Longrightarrow>
   snapshot (run st (adds c calls)) c = snapshot st c @ map new_task calls"
proof (induction calls arbitrary: st)
  case Nil
  then show ?case by (simp add: adds_def)
next
  case (Cons call calls)
  obtain mid usr args where call: "call = (mid, usr, args)" by (cases call)
  have ne: "strip (join (ascii '' '') args) \<noteq> []"
    using Cons.prems call by auto
  let ?st1 = "st(c \<mapsto> snapshot st c @ [new_task (mid, usr, args)])"
  have step: "snd (handle CmdAdd (command_update c mid usr) args st) = ?st1"
    using ne by (rule handle_add_command)
  have rest: "\<forall>call\<in>set calls. strip (join (ascii '' '') (snd (snd call))) \<noteq> []"
    using Cons.prems by simp
  have "snapshot (run st (adds c (call # calls))) c = snapshot (run ?st1 (adds c calls)) c"
    using step call by (simp add: adds_def)
  also have "\<dots> = snapshot ?st1 c @ map new_task calls"
    using rest by (rule Cons.IH)
  finally show ?case by (simp add: snapshot_upd call)
qed

lemma all_trimmed_get_tasks_for:
  "all_trimmed (snd (get_tasks_for st c)) = all_trimmed st"
  by (simp add: all_trimmed_def snapshot_get_tasks_for)

lemma all_trimmed_upd:
  "all_trimmed st \<Longrightarrow> \<forall>t\<in>set ts. trimmed (text_of t) \<Longrightarrow> all_trimmed (st(c \<mapsto> ts))"
  by (simp add: all_trimmed_def snapshot_upd)

lemma pop_subset: "pop xs i = Inr (x, ys) \<Longrightarrow> set ys \<subseteq> set xs"
  by (auto simp: pop_def Let_def split: if_splits dest: in_set_takeD in_set_dropD)

lemma add_trimmed: "all_trimmed st \<Longrightarrow> all_trimmed (snd (add u args st))"
proof -
  assume a: "all_trimmed st"
  show ?thesis
  proof (cases "strip (join (ascii '' '') args) = []")
    case True
    then show ?thesis using a by (simp add: add_def Let_def)
  next
    case False
    show ?thesis
    proof (cases "message u")
      case None
      then show ?thesis using a by (simp add: add_without_message)
    next
      case (Some m)
      have t: "trimmed (strip (join (ascii '' '') args))" using False by (rule trimmed_strip)
      have "\<forall>t\<in>set (snapshot st (chat_id u) @
          [(strip (join (ascii '' '') args), message_id m, added_by_of (effective_user u))]).
          trimmed (text_of t)"
        using a t by (auto simp: all_trimmed_def text_of_def)
      then show ?thesis
        using a add_accepts [OF False Some, of st] by (simp add: all_trimmed_upd)
    qed
  qed
qed

lemma list_tasks_store: "snd (list_tasks u args st) = snd (get_tasks_for st (chat_id u))"
  by (simp add: list_tasks_def Let_def split: prod.splits)

lemma goto_task_store: "snd (goto_task u args st) = snd (get_tasks_for st (chat_id u))"
  by (simp add: goto_task_def Let_def split: prod.splits list.splits sum.splits)

lemma done_trimmed: "all_trimmed st \<Longrightarrow> all_trimmed (snd (done_task u args st))"
proof -
  assume a: "all_trimmed st"
  obtain tasks st1 where g: "get_tasks_for st (chat_id u) = (tasks, st1)"
    by (cases "get_tasks_for st (chat_id u)")
  have st1: "all_trimmed st1" using a g all_trimmed_get_tasks_for [of st "chat_id u"] by simp
  have tasks: "tasks = snapshot st (chat_id u)" using g fst_get_tasks_for [of st "chat_id u"] by simp
  have sub: "\<And>i x ys. pop tasks i = Inr (x, ys) \<Longrightarrow> all_trimmed (st1(chat_id u \<mapsto> ys))"
  proof -
    fix i x ys assume "pop tasks i = Inr (x, ys)"
    then have "set ys \<subseteq> set tasks" by (rule pop_subset)
    then have "\<forall>t\<in>set ys. trimmed (text_of t)" using a tasks by (auto simp: all_trimmed_def)
    then show "all_trimmed (st1(chat_id u \<mapsto> ys))" using st1 by (simp add: all_trimmed_upd)
  qed
  show ?thesis
    using g st1 sub
    by (auto simp: done_task_def Let_def split: list.splits sum.splits prod.splits)
qed

lemma handle_trimmed: "all_trimmed st \<Longrightarrow> all_trimmed (snd (handle cmd u args st))"
proof (cases cmd)
  case CmdStart
  assume "all_trimmed st" then show ?thesis using CmdStart by (simp add: start_def)
next
  case CmdHelp
  assume "all_trimmed st" then show ?thesis using CmdHelp by (simp add: help_cmd_def)
next
  case CmdAdd
  assume "all_trimmed st" then show ?thesis using CmdAdd by (simp add: add_trimmed)
next
  case CmdList
  assume "all_trimmed st" then show ?thesis using CmdList
    by (simp add: list_tasks_store all_trimmed_get_tasks_for)
next
  case CmdGoto
  assume "all_trimmed st" then show ?thesis using CmdGoto
    by (simp add: goto_task_store all_trimmed_get_tasks_for)
next
  case CmdDone
  assume "all_trimmed st" then show ?thesis using CmdDone by (simp add: done_trimmed)
next
  case CmdClear
  assume "all_trimmed st" then show ?thesis using CmdClear
    by (simp add: clear_tasks_def all_trimmed_upd)
qed

lemma run_trimmed: "all_trimmed st \<Longrightarrow> all_trimmed (run st invs)"
proof (induction invs arbitrary: st)
  case Nil
  then show ?case by simp
next
  case (Cons inv invs)
  obtain cmd u args where inv: "inv = (cmd, u, args)" by (cases inv)
  have "all_trimmed (snd (handle cmd u args st))" using Cons.prems by (rule handle_trimmed)
  then have "all_trimmed (run (snd (handle cmd u args st)) invs)" by (rule Cons.IH)
  then show ?case using inv by simp
qed

subsection \<open>Sample evaluations\<close>

lemma new_task_buy_milk:
  "new_task (42, bob, [ascii ''Buy'', ascii ''milk'']) = (ascii ''Buy milk'', 42, ascii ''@bob'')"
  by (simp add: new_task_def bob_def added_by_of_def ascii_def strip_def lstrip_def
      rstrip_def isspace_def)

lemma new_task_walk_dog:
  "new_task (43, amy, [ascii ''Walk'', ascii ''dog'']) = (ascii ''Walk dog'', 43, ascii ''@amy'')"
  by (simp add: new_task_def amy_def added_by_of_def ascii_def strip_def lstrip_def
      rstrip_def isspace_def)

lemma strip_buy_milk: "strip (join (ascii '' '') [ascii ''Buy'', ascii ''milk'']) = ascii ''Buy milk''"
  by (simp add: ascii_def strip_def lstrip_def rstrip_def isspace_def)

lemma strip_walk_dog: "strip (join (ascii '' '') [ascii ''Walk'', ascii ''dog'']) = ascii ''Walk dog''"
  by (simp add: ascii_def strip_def lstrip_def rstrip_def isspace_def)

lemma message_upd7: "message upd7 = Some \<lparr>message_id = 42\<rparr>"
  by (simp add: upd7_def)

lemma run_add_list:
  "snapshot (run Map.empty [(CmdAdd, upd7, [ascii ''Buy'', ascii ''milk'']), (CmdList, upd7, [])]) 7 =
     [(ascii ''Buy milk'', 42, ascii ''@bob'')]"
proof -
  have ne: "strip (join (ascii '' '') [ascii ''Buy'', ascii ''milk'']) \<noteq> []"
    by (simp only: strip_buy_milk) (simp add: ascii_def)
  have a: "snd (add upd7 [ascii ''Buy'', ascii ''milk''] Map.empty) =
      [7 \<mapsto> [(ascii ''Buy milk'', 42, ascii ''@bob'')]]"
    using add_accepts [OF ne message_upd7, of Map.empty]
    unfolding strip_buy_milk
    by (simp add: snapshot_def upd7_def bob_def added_by_of_def) (simp add: ascii_def)
  show ?thesis
    by (simp add: a list_tasks_store snapshot_get_tasks_for) (simp add: snapshot_def)
qed

text \<open>
  An edited command: every handler raises \<^verbatim>\<open>AttributeError\<close> where it reaches for
  \<^verbatim>\<open>update.message\<close>; \<^verbatim>\<open>/add\<close> before it appends, \<^verbatim>\<open>/done\<close> and \<^verbatim>\<open>/clear\<close> after
  they have changed the list.
\<close>

lemma edited_command_raises:
  "start edited7 [] store7 = (Inl AttributeError, store7) \<and>
   help_cmd edited7 [] store7 = (Inl AttributeError, store7) \<and>
   add edited7 [ascii ''Buy'', ascii ''milk''] store7 = (Inl AttributeError, store7) \<and>
   list_tasks edited7 [] store7 = (Inl AttributeError, store7) \<and>
   goto_task edited7 [ascii ''1''] store7 = (Inl AttributeError, store7) \<and>
   done_task edited7 [ascii ''1''] store7 = (Inl AttributeError, [7 \<mapsto> [eggs]]) \<and>
   clear_tasks edited7 [] store7 = (Inl AttributeError, [7 \<mapsto> []])"
proof -
  have g: "get_tasks_for store7 (chat_id edited7) = ([milk, eggs], store7)"
    by (simp add: get_tasks_for_def store7_def edited7_def)
  have m: "message edited7 = None" by (simp add: edited7_def)
  have p: "pop [milk, eggs] 0 = Inr (milk, [eggs])" by (simp add: pop_def)
  have c: "chat_id edited7 = 7" by (simp add: edited7_def)
  obtain tx mid ab where t: "milk = (tx, mid, ab)" by (cases milk)
  have 1: "start edited7 [] store7 = (Inl AttributeError, store7)"
    by (simp add: start_def reply_text_edited7)
  have 2: "help_cmd edited7 [] store7 = (Inl AttributeError, store7)"
    by (simp add: help_cmd_def reply_text_edited7)
  have 3: "add edited7 [ascii ''Buy'', ascii ''milk''] store7 = (Inl AttributeError, store7)"
    using m by (rule add_without_message)
  have 4: "list_tasks edited7 [] store7 = (Inl AttributeError, store7)"
    by (simp add: list_tasks_def Let_def g reply_text_edited7)
  have 5: "goto_task edited7 [ascii ''1''] store7 = (Inl AttributeError, store7)"
    using t by (simp add: goto_task_def Let_def g isdigit_1 py_int_1 reply_text_edited7)
  have 6: "done_task edited7 [ascii ''1''] store7 = (Inl AttributeError, [7 \<mapsto> [eggs]])"
    using t p by (simp add: done_task_def Let_def g isdigit_1 py_int_1 reply_text_edited7)
      (simp add: store7_def c)
  have 7: "clear_tasks edited7 [] store7 = (Inl AttributeError, [7 \<mapsto> []])"
    by (simp add: clear_tasks_def reply_text_edited7) (simp add: store7_def c)
  show ?thesis using 1 2 3 4 5 6 7 by simp
qed

subsection \<open>The claims\<close>

text \<open>
  Claim C7. Whatever the store held for the chat (nothing, an empty list or tasks),
  \<^verbatim>\<open>/clear\<close> sets the chat's list to the empty list: the chat's list is empty afterwards,
  the lists of the other chats are what they were, and a second \<^verbatim>\<open>/clear\<close> leaves the
  store that the first one left. The handler then passes its confirmation to
  \<^verbatim>\<open>reply_text\<close>, which returns it when the update carries its message.
\<close>

theorem clear_tasks_empties:
  "fst (clear_tasks u args st) = reply_text u (say cleared_msg) \<and>
   snapshot (snd (clear_tasks u args st)) (chat_id u) = [] \<and>
   (\<forall>c. c \<noteq> chat_id u \<longrightarrow> snapshot (snd (clear_tasks u args st)) c = snapshot st c) \<and>
   snd (clear_tasks u args' (snd (clear_tasks u args st))) = snd (clear_tasks u args st)"
  by (simp add: clear_tasks_def snapshot_def)

theorem clear_tasks_empties_witness:
  "fst (clear_tasks upd7 [] store7) = Inr (say cleared_msg) \<and>
   snapshot (snd (clear_tasks upd7 [] store7)) (chat_id upd7) = [] \<and>
   (8::int) \<noteq> chat_id upd7 \<and>
   snapshot (snd (clear_tasks upd7 [] store7)) 8 = snapshot store7 8 \<and>
   snd (clear_tasks upd7 [] (snd (clear_tasks upd7 [] store7))) = snd (clear_tasks upd7 [] store7)"
proof -
  have c: "(8::int) \<noteq> chat_id upd7" by (simp add: upd7_def)
  show ?thesis
    using c clear_tasks_empties [of upd7 "[]" store7 "[]"] by (simp add: reply_text_upd7)
qed





text \<open>
  Claim C3. With \<open>len \<ge> 1\<close> tasks and a position \<open>p\<close> in \<open>[1, len]\<close>, the
  \<^verbatim>\<open>pop\<close> of \<^verbatim>\<open>/done\<close> returns the task that was at position \<open>p\<close>, and the handler
  passes the confirmation that names it to \<^verbatim>\<open>reply_text\<close>; afterwards the list has
  \<open>len - 1\<close> tasks, those before \<open>p\<close> where they were and those after \<open>p\<close> one
  position lower; and a second \<^verbatim>\<open>/done\<close> with the same \<open>p\<close> pops the task that came
  next. This holds for every update, with or without its message.
\<close>

theorem done_removes_at_position:
  assumes "snapshot st (chat_id u) = tasks"
    and "isdigit a" and "py_int a = Inr p"
    and "1 \<le> p" and "p \<le> int (length tasks)"
    and "st' = snd (done_task u (a # rest) st)"
  shows "pop tasks (p - 1) =
           Inr (tasks ! nat (p - 1), take (nat (p - 1)) tasks @ drop (nat p) tasks) \<and>
         fst (done_task u (a # rest) st) =
           reply_text u (say (completed_msg (text_of (tasks ! nat (p - 1)))
                                            (adder_of (tasks ! nat (p - 1))))) \<and>
         snapshot st' (chat_id u) = take (nat (p - 1)) tasks @ drop (nat p) tasks \<and>
         length (snapshot st' (chat_id u)) = length tasks - 1 \<and>
         (\<forall>i. i < nat (p - 1) \<longrightarrow> snapshot st' (chat_id u) ! i = tasks ! i) \<and>
         (\<forall>i. nat (p - 1) \<le> i \<and> i < length tasks - 1 \<longrightarrow>
              snapshot st' (chat_id u) ! i = tasks ! Suc i) \<and>
         (p < int (length tasks) \<longrightarrow>
            pop (snapshot st' (chat_id u)) (p - 1) =
              Inr (tasks ! nat p,
                   take (nat (p - 1)) (snapshot st' (chat_id u)) @
                   drop (nat p) (snapshot st' (chat_id u))) \<and>
            fst (done_task u (a # rest) st') =
              reply_text u (say (completed_msg (text_of (tasks ! nat p))
                                               (adder_of (tasks ! nat p)))))"
proof -
  let ?c = "chat_id u"
  let ?new = "take (nat (p - 1)) tasks @ drop (nat p) tasks"
  have sp: "Suc (nat (p - 1)) = nat p" using assms(4) by simp
  have run1: "done_task u (a # rest) st =
      (reply_text u (say (completed_msg (text_of (tasks ! nat (p - 1)))
                                        (adder_of (tasks ! nat (p - 1))))),
       st(?c \<mapsto> ?new))"
    using assms(1-5) by (rule done_task_in_range)
  have st': "st' = st(?c \<mapsto> ?new)" using assms(6) run1 by simp
  have snap: "snapshot st' ?c = ?new" by (simp add: st' snapshot_upd)
  have len: "length ?new = length tasks - 1" using assms(4,5) by auto
  have before: "\<forall>i. i < nat (p - 1) \<longrightarrow> ?new ! i = tasks ! i"
    using assms(4,5) by (auto simp: nth_append)
  have after: "\<forall>i. nat (p - 1) \<le> i \<and> i < length tasks - 1 \<longrightarrow> ?new ! i = tasks ! Suc i"
  proof (intro allI impI)
    fix i assume i: "nat (p - 1) \<le> i \<and> i < length tasks - 1"
    have l: "length (take (nat (p - 1)) tasks) = nat (p - 1)" using assms(4,5) by auto
    have "?new ! i = drop (nat p) tasks ! (i - nat (p - 1))"
      using i l by (simp add: nth_append)
    also have "\<dots> = tasks ! (nat p + (i - nat (p - 1)))"
      using i assms(4,5) by (subst nth_drop) auto
    also have "nat p + (i - nat (p - 1)) = Suc i" using i assms(4) by auto
    finally show "?new ! i = tasks ! Suc i" .
  qed
  have popped: "pop tasks (p - 1) = Inr (tasks ! nat (p - 1), ?new)"
    using sp assms(4,5) by (simp add: pop_in_range)
  have again: "p < int (length tasks) \<longrightarrow>
      pop ?new (p - 1) = Inr (tasks ! nat p, take (nat (p - 1)) ?new @ drop (nat p) ?new) \<and>
      fst (done_task u (a # rest) st') =
        reply_text u (say (completed_msg (text_of (tasks ! nat p)) (adder_of (tasks ! nat p))))"
  proof
    assume lt: "p < int (length tasks)"
    have le2: "p \<le> int (length ?new)" using lt assms(4) len by auto
    have nth: "?new ! nat (p - 1) = tasks ! nat p"
    proof -
      have "nat (p - 1) \<le> nat (p - 1) \<and> nat (p - 1) < length tasks - 1" using lt assms(4) by auto
      then have "?new ! nat (p - 1) = tasks ! Suc (nat (p - 1))" using after by blast
      then show ?thesis using sp by simp
    qed
    have pop2: "pop ?new (p - 1) = Inr (?new ! nat (p - 1), take (nat (p - 1)) ?new @ drop (nat p) ?new)"
      using sp assms(4) le2 by (simp add: pop_in_range)
    have "done_task u (a # rest) st' =
      (reply_text u (say (completed_msg (text_of (?new ! nat (p - 1)))
                                        (adder_of (?new ! nat (p - 1))))),
       st'(?c \<mapsto> take (nat (p - 1)) ?new @ drop (nat p) ?new))"
      using snap assms(2,3,4) le2 by (rule done_task_in_range)
    then have r2: "fst (done_task u (a # rest) st') =
        reply_text u (say (completed_msg (text_of (tasks ! nat p)) (adder_of (tasks ! nat p))))"
      by (simp add: nth)
    show "pop ?new (p - 1) = Inr (tasks ! nat p, take (nat (p - 1)) ?new @ drop (nat p) ?new) \<and>
      fst (done_task u (a # rest) st') =
        reply_text u (say (completed_msg (text_of (tasks ! nat p)) (adder_of (tasks ! nat p))))"
      using pop2 r2 nth by simp
  qed
  show ?thesis
    unfolding snap using popped run1 len before after again by simp
qed

theorem done_removes_at_position_witness:
  "snapshot store7 (chat_id upd7) = [milk, eggs] \<and> isdigit (ascii ''1'') \<and>
   py_int (ascii ''1'') = Inr 1 \<and> pop [milk, eggs] 0 = Inr (milk, [eggs]) \<and>
   fst (done_task upd7 [ascii ''1''] store7) =
     Inr (say (completed_msg (ascii ''Buy milk'') (ascii ''@bob''))) \<and>
   snapshot (snd (done_task upd7 [ascii ''1''] store7)) (chat_id upd7) = [eggs] \<and>
   fst (done_task upd7 [ascii ''1''] (snd (done_task upd7 [ascii ''1''] store7))) =
     Inr (say (completed_msg (ascii ''Buy eggs'') (ascii ''@amy'')))"
  using done_removes_at_position [OF snapshot_store7 isdigit_1(1) py_int_1(1) _ _ refl, of "[]"]
    snapshot_store7 isdigit_1(1) py_int_1(1)
  by (simp add: milk_def eggs_def adder_of_def text_of_def reply_text_upd7)



text \<open>
  Claim C2, as amended. The arguments of \<^verbatim>\<open>/add\<close> are the whitespace-separated tokens
  of the text after the command. When that text has a character that is not whitespace
  and the update carries its message, \<^verbatim>\<open>/add\<close> appends a task whose text is the tokens
  joined by single spaces (so whitespace at the ends is gone and every run of whitespace
  inside has become one space), with the id of the command message and the sender's label,
  and the confirmation quotes that text.
\<close>

theorem add_stores_joined_tokens:
  assumes "strip argString \<noteq> []" and "args = split argString" and "message u = Some m"
  shows "add u args st =
           (Inr (say (added_msg (join (ascii '' '') args) (added_by_of (effective_user u)))),
            st(chat_id u \<mapsto> snapshot st (chat_id u) @
                 [(join (ascii '' '') args, message_id m, added_by_of (effective_user u))]))"
proof -
  have j: "strip (join (ascii '' '') args) = join (ascii '' '') args"
    and ne: "join (ascii '' '') args \<noteq> []"
    using assms(1,2) strip_join_split [of argString "ascii '' ''"] by simp_all
  have "strip (join (ascii '' '') args) \<noteq> []" using j ne by simp
  then show ?thesis
    using add_accepts [of args u m st] assms(3) j by simp
qed

theorem add_stores_joined_tokens_witness:
  "strip (ascii ''a  b'') \<noteq> [] \<and> message upd7 = Some \<lparr>message_id = 42\<rparr> \<and>
   add upd7 (split (ascii ''a  b'')) Map.empty =
     (Inr (say (added_msg (ascii ''a b'') (ascii ''@bob''))),
      [7 \<mapsto> [(ascii ''a b'', 42, ascii ''@bob'')]])"
proof -
  have h: "strip (ascii ''a  b'') \<noteq> []" by (simp add: strip_a_b) (simp add: ascii_def)
  show ?thesis
    using h message_upd7 add_stores_joined_tokens [OF h refl message_upd7, of Map.empty]
    by (simp add: split_a_b upd7_def bob_def added_by_of_def snapshot_def) (simp add: ascii_def)
qed

text \<open>
  Claim C2 as stated fails: for the text \<^verbatim>\<open>a  b\<close> (two spaces inside) the stored
  text is \<^verbatim>\<open>a b\<close>, which is not the text with only its ends stripped.
\<close>

theorem add_inner_whitespace_counterexample:
  "strip (ascii ''a  b'') \<noteq> [] \<and>
   snapshot (snd (add upd7 (split (ascii ''a  b'')) Map.empty)) 7 =
     [(ascii ''a b'', 42, ascii ''@bob'')] \<and>
   ascii ''a b'' \<noteq> strip (ascii ''a  b'')"
proof -
  have j: "strip (join (ascii '' '') [ascii ''a'', ascii ''b'']) = ascii ''a b''"
    by (simp add: ascii_def strip_def lstrip_def rstrip_def isspace_def)
  have ne: "strip (join (ascii '' '') [ascii ''a'', ascii ''b'']) \<noteq> []"
    by (simp only: j) (simp add: ascii_def)
  have a: "snapshot (snd (add upd7 (split (ascii ''a  b'')) Map.empty)) 7 =
     [(ascii ''a b'', 42, ascii ''@bob'')]"
    using add_accepts [OF ne message_upd7, of Map.empty]
    unfolding split_a_b j
    by (simp add: snapshot_def upd7_def bob_def added_by_of_def) (simp add: ascii_def)
  show ?thesis using a by (simp add: strip_a_b) (simp add: ascii_def)
qed

text \<open>
  Claim C1 does not hold of the code. \<^verbatim>\<open>/goto\<close> and \<^verbatim>\<open>/done\<close> guard \<^verbatim>\<open>int()\<close>
  with \<^verbatim>\<open>isdigit()\<close>, which accepts SUPERSCRIPT TWO (U+00B2); \<^verbatim>\<open>int()\<close> does not.
  In a chat with tasks both handlers raise \<^verbatim>\<open>ValueError\<close> on that argument instead of
  returning a reply.
\<close>

theorem digit_guard_lets_int_raise:
  "isdigit [0xB2] \<and> py_int [0xB2] = Inl ValueError \<and>
   goto_task upd7 [[0xB2]] store7 = (Inl ValueError, store7) \<and>
   done_task upd7 [[0xB2]] store7 = (Inl ValueError, store7)"
proof -
  have d: "isdigit [0xB2]"
    by (simp add: isdigit_def isdigit_char_def other_digit_ranges_def)
  have i: "py_int [0xB2] = Inl ValueError"
    by (simp add: py_int_def decimal_value_def decimal_zeros_def)
  have g: "get_tasks_for store7 (chat_id upd7) = ([milk, eggs], store7)"
    by (simp add: get_tasks_for_def store7_def upd7_def)
  show ?thesis using d i g
    by (simp add: goto_task_def done_task_def Let_def)
qed

text \<open>
  Claim C5. After any series of accepted \<^verbatim>\<open>/add\<close> commands, each sent as a new message
  in one chat, starting from a list of \<open>k\<close> tasks, the list is the old tasks followed by
  the new ones in the order of the commands; right after the \<open>i\<close>-th of them the list has
  \<open>k + i\<close> tasks and the new task is the one at position \<open>k + i\<close>. (The list's
  \<^verbatim>\<open>append\<close> returns nothing; the position of a task is the number \<^verbatim>\<open>/list\<close> prints
  for it.)
\<close>

theorem adds_keep_call_order:
  assumes "\<forall>call\<in>set calls. strip (join (ascii '' '') (snd (snd call))) \<noteq> []"
    and "length (snapshot st c) = k"
  shows "snapshot (run st (adds c calls)) c = snapshot st c @ map new_task calls \<and>
         (\<forall>i. 1 \<le> i \<and> i \<le> length calls \<longrightarrow>
            length (snapshot (run st (adds c (take i calls))) c) = k + i \<and>
            snapshot (run st (adds c (take i calls))) c ! (k + i - 1) =
              new_task (calls ! (i - 1)))"
proof (intro conjI allI impI)
  show "snapshot (run st (adds c calls)) c = snapshot st c @ map new_task calls"
    using assms(1) by (rule run_adds_snapshot)
next
  fix i assume i: "1 \<le> i \<and> i \<le> length calls"
  have sub: "\<forall>call\<in>set (take i calls). strip (join (ascii '' '') (snd (snd call))) \<noteq> []"
    using assms(1) by (auto dest: in_set_takeD)
  have snap: "snapshot (run st (adds c (take i calls))) c =
      snapshot st c @ map new_task (take i calls)"
    using sub by (rule run_adds_snapshot)
  show "length (snapshot (run st (adds c (take i calls))) c) = k + i"
    using snap i assms(2) by simp
  have "(snapshot st c @ map new_task (take i calls)) ! (k + i - 1) =
      map new_task (take i calls) ! (i - 1)"
  proof -
    have "\<not> k + i - 1 < length (snapshot st c)" and "k + i - 1 - length (snapshot st c) = i - 1"
      using i assms(2) by auto
    then show ?thesis by (simp only: nth_append if_False)
  qed
  also have "\<dots> = new_task (calls ! (i - 1))" using i by simp
  finally show "snapshot (run st (adds c (take i calls))) c ! (k + i - 1) =
      new_task (calls ! (i - 1))"
    using snap by simp
qed

theorem adds_keep_call_order_witness:
  "strip (join (ascii '' '') [ascii ''Buy'', ascii ''milk'']) \<noteq> [] \<and>
   strip (join (ascii '' '') [ascii ''Walk'', ascii ''dog'']) \<noteq> [] \<and>
   length (snapshot store7 7) = 2 \<and>
   snapshot (run store7 (adds 7 [(42, bob, [ascii ''Buy'', ascii ''milk'']),
                                 (43, amy, [ascii ''Walk'', ascii ''dog''])])) 7 =
     [milk, eggs, (ascii ''Buy milk'', 42, ascii ''@bob''), (ascii ''Walk dog'', 43, ascii ''@amy'')] \<and>
   length (snapshot (run store7 (adds 7 (take 1 [(42, bob, [ascii ''Buy'', ascii ''milk'']),
                                                 (43, amy, [ascii ''Walk'', ascii ''dog''])]))) 7) = 3 \<and>
   snapshot (run store7 (adds 7 (take 2 [(42, bob, [ascii ''Buy'', ascii ''milk'']),
                                         (43, amy, [ascii ''Walk'', ascii ''dog''])]))) 7 ! 3 =
     (ascii ''Walk dog'', 43, ascii ''@amy'')"
proof -
  let ?calls = "[(42, bob, [ascii ''Buy'', ascii ''milk'']), (43, amy, [ascii ''Walk'', ascii ''dog''])]"
  have n1: "strip (join (ascii '' '') [ascii ''Buy'', ascii ''milk'']) \<noteq> []"
    by (simp only: strip_buy_milk) (simp add: ascii_def)
  have n2: "strip (join (ascii '' '') [ascii ''Walk'', ascii ''dog'']) \<noteq> []"
    by (simp only: strip_walk_dog) (simp add: ascii_def)
  have h1: "\<forall>call\<in>set ?calls. strip (join (ascii '' '') (snd (snd call))) \<noteq> []"
    using n1 n2 by simp
  have h2: "length (snapshot store7 7) = 2" by (simp add: snapshot_def store7_def)
  have s: "snapshot store7 7 = [milk, eggs]" by (simp add: snapshot_def store7_def)
  note t = adds_keep_call_order [OF h1 h2]
  have a: "snapshot (run store7 (adds 7 ?calls)) 7 =
     [milk, eggs, (ascii ''Buy milk'', 42, ascii ''@bob''), (ascii ''Walk dog'', 43, ascii ''@amy'')]"
    using t s new_task_buy_milk new_task_walk_dog by simp
  have i1: "length (snapshot (run store7 (adds 7 (take 1 ?calls))) 7) = 2 + 1"
    using t by (elim conjE allE [of _ 1]) simp
  have i2: "snapshot (run store7 (adds 7 (take 2 ?calls))) 7 ! (2 + 2 - 1) = new_task (?calls ! (2 - 1))"
    using t by (elim conjE allE [of _ 2]) simp
  have b: "length (snapshot (run store7 (adds 7 (take 1 ?calls))) 7) = 3"
    using i1 by simp
  have c: "snapshot (run store7 (adds 7 (take 2 ?calls))) 7 ! 3 = (ascii ''Walk dog'', 43, ascii ''@amy'')"
    using i2 new_task_walk_dog by simp
  show ?thesis using n1 n2 h2 a b c by simp
qed

text \<open>
  Claim C10. In every store reached from the empty one by any series of the seven
  commands, every task of every chat has a text that is not empty and has no whitespace
  at either end: \<^verbatim>\<open>/add\<close> stores only a stripped text and refuses an empty one, and no
  other command puts a task in a list or changes one.
\<close>

theorem stored_texts_trimmed:
  "\<forall>t\<in>set (snapshot (run Map.empty invs) c).
     text_of t \<noteq> [] \<and> \<not> isspace (hd (text_of t)) \<and> \<not> isspace (last (text_of t))"
proof -
  have "all_trimmed Map.empty" by (simp add: all_trimmed_def snapshot_def)
  then have "all_trimmed (run Map.empty invs)" by (rule run_trimmed)
  then show ?thesis by (simp add: all_trimmed_def trimmed_def)
qed

theorem stored_texts_trimmed_witness:
  "(ascii ''Buy milk'', 42, ascii ''@bob'') \<in>
     set (snapshot (run Map.empty [(CmdAdd, upd7, [ascii ''Buy'', ascii ''milk'']),
                                   (CmdList, upd7, [])]) 7) \<and>
   text_of (ascii ''Buy milk'', 42, ascii ''@bob'') \<noteq> [] \<and>
   \<not> isspace (hd (text_of (ascii ''Buy milk'', 42, ascii ''@bob''))) \<and>
   \<not> isspace (last (text_of (ascii ''Buy milk'', 42, ascii ''@bob'')))"
proof -
  have m: "(ascii ''Buy milk'', 42, ascii ''@bob'') \<in>
     set (snapshot (run Map.empty [(CmdAdd, upd7, [ascii ''Buy'', ascii ''milk'']),
                                   (CmdList, upd7, [])]) 7)"
    by (simp only: run_add_list) simp
  show ?thesis
    using m stored_texts_trimmed
      [of "[(CmdAdd, upd7, [ascii ''Buy'', ascii ''milk'']), (CmdList, upd7, [])]" 7]
    by blast
qed

end
